theory Spec2Isabelle
  imports Complex_Main "HOL-Library.AList" "HOL-Library.Multiset" "HOL-Library.Product_Lexorder"
    "HOL-Library.Sublist"
begin

section \<open>Decoded values and Python dictionaries\<close>

text \<open>
  The values \<open>json.loads\<close> produces. A Python \<open>dict\<close> keeps insertion order, so it is an
  association list; \<open>d[k] = v\<close> is \<open>AList.update\<close> (overwrite in place, or append).
  A float is carried as a rational: no function below inspects it.
\<close>

datatype json =
    JNull
  | JBool bool
  | JInt int
  | JFloat rat
  | JStr string
  | JList "json list"
  | JDict "(string \<times> json) list"

type_synonym row = "(string \<times> json) list"

text \<open>\<open>d.get(k)\<close>: the value, or \<open>None\<close> when the key is missing.\<close>

definition py_get :: "row \<Rightarrow> string \<Rightarrow> json" where
  "py_get d k = (case map_of d k of Some v \<Rightarrow> v | None \<Rightarrow> JNull)"

text \<open>
  \<open>isinstance(v, int)\<close> with the integer it denotes. In Python \<open>bool\<close> is a subclass of
  \<open>int\<close>: \<open>True\<close> is the integer 1 and \<open>False\<close> the integer 0, also as a dictionary key.
\<close>

fun as_int :: "json \<Rightarrow> int option" where
  "as_int (JInt n) = Some n"
| "as_int (JBool b) = Some (if b then 1 else 0)"
| "as_int _ = None"

section \<open>The consolidator: \<open>merge_events\<close> and \<open>sort_events_desc\<close>\<close>

text \<open>The inner function \<open>key_of\<close> of \<open>merge_events\<close>.\<close>

definition key_of :: "row \<Rightarrow> (int \<times> int) option" where
  "key_of r =
     (case as_int (py_get r ''event_id'') of
        None \<Rightarrow> None
      | Some event_id \<Rightarrow>
          (case as_int (py_get r ''dateline_epoch'') of
             None \<Rightarrow> None
           | Some epoch \<Rightarrow> Some (event_id, epoch)))"

text \<open>The test \<open>value not in (None, "")\<close> is \<open>\<not> is_none_or_empty value\<close>.\<close>

definition is_none_or_empty :: "json \<Rightarrow> bool" where
  "is_none_or_empty v = (v = JNull \<or> v = JStr [])"

text \<open>The first loop: every existing row that has a key is stored under it.\<close>

definition load_step :: "((int \<times> int) \<times> row) list \<Rightarrow> row \<Rightarrow> ((int \<times> int) \<times> row) list" where
  "load_step merged r =
     (case key_of r of None \<Rightarrow> merged | Some key \<Rightarrow> AList.update key r merged)"

text \<open>The body of the second loop from \<open>merged_row = dict(merged[key])\<close> on.\<close>

definition field_step :: "row \<Rightarrow> string \<times> json \<Rightarrow> row" where
  "field_step merged_row fv =
     (if fst fv = ''actual'' then merged_row
      else if \<not> is_none_or_empty (snd fv) then AList.update (fst fv) (snd fv) merged_row
      else merged_row)"

definition merge_row :: "row \<Rightarrow> row \<Rightarrow> row" where
  "merge_row old r =
     (let new_actual = py_get r ''actual'';
          merged_row = (if \<not> is_none_or_empty new_actual
                        then AList.update ''actual'' new_actual old else old)
      in foldl field_step merged_row r)"

definition incoming_step :: "((int \<times> int) \<times> row) list \<Rightarrow> row \<Rightarrow> ((int \<times> int) \<times> row) list" where
  "incoming_step merged r =
     (case key_of r of
        None \<Rightarrow> merged
      | Some key \<Rightarrow>
          (case map_of merged key of
             None \<Rightarrow> AList.update key r merged
           | Some old \<Rightarrow> AList.update key (merge_row old r) merged))"

definition merge_events :: "row list \<Rightarrow> row list \<Rightarrow> row list" where
  "merge_events existing incoming =
     map snd (foldl incoming_step (foldl load_step [] existing) incoming)"

text \<open>\<open>sort_events_desc\<close>: Python's \<open>sorted\<close> is stable, as \<open>sort_key\<close> is.\<close>

definition epoch_val :: "row \<Rightarrow> int" where
  "epoch_val r = (case as_int (py_get r ''dateline_epoch'') of Some n \<Rightarrow> n | None \<Rightarrow> - 1)"

definition event_val :: "row \<Rightarrow> int" where
  "event_val r = (case as_int (py_get r ''event_id'') of Some n \<Rightarrow> n | None \<Rightarrow> - 1)"

definition sort_key_of :: "row \<Rightarrow> int \<times> int" where
  "sort_key_of r = (- epoch_val r, - event_val r)"

definition sort_events_desc :: "row list \<Rightarrow> row list" where
  "sort_events_desc rows = sort_key sort_key_of rows"

text \<open>
  The order the specification asks of two neighbours in the store: the epoch goes down,
  and within one epoch the event id goes down.
\<close>

definition newer_first :: "row \<Rightarrow> row \<Rightarrow> bool" where
  "newer_first a b \<longleftrightarrow>
     epoch_val a > epoch_val b \<or> (epoch_val a = epoch_val b \<and> event_val a \<ge> event_val b)"

text \<open>
  What holds of the dictionary \<open>merged\<close> throughout \<open>merge_events\<close>: its keys are distinct,
  and every row is stored under its own key.
\<close>

definition store_inv :: "((int \<times> int) \<times> row) list \<Rightarrow> bool" where
  "store_inv merged \<longleftrightarrow> distinct (map fst merged) \<and> (\<forall>(k, r) \<in> set merged. key_of r = Some k)"


section \<open>Characters and strings\<close>

text \<open>
  A Python \<open>str\<close> is a list of characters; a character here is a code point below 256.
  The classifiers are \<open>str.isspace\<close>, \<open>str.isalpha\<close>, \<open>str.isalnum\<close> and \<open>str.lower\<close> of
  Python 3 on that range.
\<close>

definition dq :: char where "dq = CHR 0x22"
definition sq :: char where "sq = CHR 0x27"
definition bs :: char where "bs = CHR 0x5C"

definition isspace :: "char \<Rightarrow> bool" where
  "isspace c = (let n = (of_char c :: nat) in (9 \<le> n \<and> n \<le> 13) \<or> (28 \<le> n \<and> n \<le> 32) \<or> n = 133 \<or> n = 160)"

definition isalpha :: "char \<Rightarrow> bool" where
  "isalpha c =
     (let n = (of_char c :: nat)
      in (65 \<le> n \<and> n \<le> 90) \<or> (97 \<le> n \<and> n \<le> 122) \<or> n = 170 \<or> n = 181 \<or> n = 186
         \<or> (192 \<le> n \<and> n \<le> 214) \<or> (216 \<le> n \<and> n \<le> 246) \<or> 248 \<le> n)"

definition isalnum :: "char \<Rightarrow> bool" where
  "isalnum c =
     (let n = (of_char c :: nat)
      in isalpha c \<or> (48 \<le> n \<and> n \<le> 57) \<or> n = 178 \<or> n = 179 \<or> n = 185
         \<or> (188 \<le> n \<and> n \<le> 190))"

definition lower_char :: "char \<Rightarrow> char" where
  "lower_char c =
     (let n = (of_char c :: nat)
      in if (65 \<le> n \<and> n \<le> 90) \<or> (192 \<le> n \<and> n \<le> 214) \<or> (216 \<le> n \<and> n \<le> 222)
         then char_of (n + 32) else c)"

definition lower :: "string \<Rightarrow> string" where
  "lower s = map lower_char s"

definition strip :: "string \<Rightarrow> string" where
  "strip s = rev (dropWhile isspace (rev (dropWhile isspace s)))"

text \<open>\<open>s.isspace()\<close> of a string: it is not empty and every character is white space.\<close>

definition str_isspace :: "string \<Rightarrow> bool" where
  "str_isspace s = (s \<noteq> [] \<and> list_all isspace s)"

text \<open>\<open>s.find(sub)\<close> and \<open>s.find(sub, start)\<close>, with \<open>None\<close> for the result \<open>-1\<close>.\<close>

fun str_find :: "string \<Rightarrow> string \<Rightarrow> nat option" where
  "str_find [] sub = (if sub = [] then Some 0 else None)"
| "str_find (c # cs) sub =
     (if prefix sub (c # cs) then Some 0 else map_option Suc (str_find cs sub))"

definition str_find_from :: "string \<Rightarrow> string \<Rightarrow> nat \<Rightarrow> nat option" where
  "str_find_from s sub start = map_option (\<lambda>n. start + n) (str_find (drop start s) sub)"

text \<open>
  The exceptions of a run. \<open>OSError\<close> stands for its subclasses too, \<open>FileNotFoundError\<close>
  apart (\<open>IsADirectoryError\<close>, \<open>PermissionError\<close>).
\<close>

datatype error =
    RuntimeError string
  | FileNotFoundError
  | JSONDecodeError
  | AttributeError
  | TypeError
  | UnicodeDecodeError
  | RecursionError
  | OSError

section \<open>The locator: \<open>extract_object_literal\<close>\<close>

text \<open>
  The branch every scanning loop takes inside a string literal: the new values of
  \<open>in_str\<close> and \<open>esc\<close>.
\<close>

definition in_string_step :: "char \<Rightarrow> bool \<Rightarrow> string \<Rightarrow> bool \<times> bool" where
  "in_string_step ch esc quote =
     (if esc then (True, False)
      else if ch = bs then (True, True)
      else if [ch] = quote then (False, False)
      else (True, False))"

text \<open>
  The \<open>for k in range(j, len(html))\<close> loop, on the text from index \<open>k\<close> on. It returns the
  index of the closing brace, or \<open>None\<close> when the loop runs off the end.
\<close>

fun brace_loop :: "string \<Rightarrow> nat \<Rightarrow> bool \<Rightarrow> bool \<Rightarrow> string \<Rightarrow> int \<Rightarrow> nat option" where
  "brace_loop [] k in_str esc quote depth = None"
| "brace_loop (ch # rest) k in_str esc quote depth =
     (if in_str then
        (case in_string_step ch esc quote of
           (in_str', esc') \<Rightarrow> brace_loop rest (k + 1) in_str' esc' quote depth)
      else if ch = sq \<or> ch = dq then brace_loop rest (k + 1) True esc [ch] depth
      else if ch = CHR ''{'' then brace_loop rest (k + 1) in_str esc quote (depth + 1)
      else if ch = CHR ''}'' then
        (if depth - 1 = 0 then Some k
         else brace_loop rest (k + 1) in_str esc quote (depth - 1))
      else brace_loop rest (k + 1) in_str esc quote depth)"

definition extract_object_literal :: "string \<Rightarrow> string \<Rightarrow> error + string" where
  "extract_object_literal html marker =
     (case str_find html marker of
        None \<Rightarrow> Inl (RuntimeError (''Marker not found: '' @ marker))
      | Some i \<Rightarrow>
          (case str_find_from html ''{'' i of
             None \<Rightarrow> Inl (RuntimeError (''Object start '' @ [sq] @ ''{'' @ [sq] @ '' not found after marker''))
           | Some j \<Rightarrow>
               (case brace_loop (drop j html) j False False [] 0 of
                  None \<Rightarrow> Inl (RuntimeError ''Unbalanced braces while extracting object'')
                | Some k \<Rightarrow> Inr (take (k + 1 - j) (drop j html)))))"

section \<open>The normalizer\<close>

subsection \<open>\<open>quote_unquoted_keys\<close>\<close>

text \<open>
  \<open>out\<close> is the list of emitted pieces, as in the source: single characters, and whole
  quoted keys. \<open>prev_emitted\<close> is the last piece that is not white space, or the empty string.
\<close>

definition prev_emitted :: "string list \<Rightarrow> string" where
  "prev_emitted out = (case dropWhile str_isspace (rev out) of [] \<Rightarrow> [] | p # _ \<Rightarrow> p)"

definition is_ident_char :: "char \<Rightarrow> bool" where
  "is_ident_char c = (isalnum c \<or> c = CHR ''_'')"

text \<open>
  After the first character of an identifier: the rest of the identifier and, when white
  space and a colon follow it, the text after the colon.
\<close>

definition key_tail :: "string \<Rightarrow> (string \<times> string) option" where
  "key_tail rest =
     (case dropWhile isspace (dropWhile is_ident_char rest) of
        [] \<Rightarrow> None
      | c # rest' \<Rightarrow> if c = CHR '':'' then Some (takeWhile is_ident_char rest, rest') else None)"

lemma key_tail_length: "key_tail rest = Some (ident, rest') \<Longrightarrow> length rest' < length rest"
proof -
  assume a: "key_tail rest = Some (ident, rest')"
  then obtain c where "dropWhile isspace (dropWhile is_ident_char rest) = c # rest'"
    by (auto simp: key_tail_def split: list.splits if_splits)
  then have "Suc (length rest') = length (dropWhile isspace (dropWhile is_ident_char rest))"
    by simp
  also have "\<dots> \<le> length (dropWhile is_ident_char rest)" by (rule length_dropWhile_le)
  also have "\<dots> \<le> length rest" by (rule length_dropWhile_le)
  finally show ?thesis by simp
qed

function quote_keys_loop :: "string \<Rightarrow> string list \<Rightarrow> bool \<Rightarrow> bool \<Rightarrow> string \<Rightarrow> string list" where
  "quote_keys_loop [] out in_str esc quote = out"
| "quote_keys_loop (ch # rest) out in_str esc quote =
     (if in_str then
        (case in_string_step ch esc quote of
           (in_str', esc') \<Rightarrow> quote_keys_loop rest (out @ [[ch]]) in_str' esc' quote)
      else if ch = dq \<or> ch = sq then quote_keys_loop rest (out @ [[ch]]) True esc [ch]
      else if (isalpha ch \<or> ch = CHR ''_'') \<and> (prev_emitted out = ''{'' \<or> prev_emitted out = '','') then
        (case key_tail rest of
           Some (ident, rest') \<Rightarrow>
             quote_keys_loop rest' (out @ [[dq] @ ch # ident @ [dq] @ '':'']) in_str esc quote
         | None \<Rightarrow> quote_keys_loop rest (out @ [[ch]]) in_str esc quote)
      else quote_keys_loop rest (out @ [[ch]]) in_str esc quote)"
  by pat_completeness auto
termination
  by (relation "measure (\<lambda>(js, out, in_str, esc, quote). length js)")
     (auto dest: key_tail_length)

definition quote_unquoted_keys :: "string \<Rightarrow> string" where
  "quote_unquoted_keys js = concat (quote_keys_loop js [] False False [])"

subsection \<open>\<open>single_quotes_to_double\<close>\<close>

fun single_quotes_loop :: "string \<Rightarrow> string list \<Rightarrow> bool \<Rightarrow> bool \<Rightarrow> bool \<Rightarrow> string list" where
  "single_quotes_loop [] out in_d in_s esc = out"
| "single_quotes_loop (ch # rest) out in_d in_s esc =
     (if in_d then
        (if esc then single_quotes_loop rest (out @ [[ch]]) in_d in_s False
         else if ch = bs then single_quotes_loop rest (out @ [[ch]]) in_d in_s True
         else if ch = dq then single_quotes_loop rest (out @ [[ch]]) False in_s esc
         else single_quotes_loop rest (out @ [[ch]]) in_d in_s esc)
      else if in_s then
        (if esc then single_quotes_loop rest (out @ [[ch]]) in_d in_s False
         else if ch = bs then single_quotes_loop rest (out @ [[ch]]) in_d in_s True
         else if ch = sq then single_quotes_loop rest (out @ [[dq]]) in_d False esc
         else if ch = dq then single_quotes_loop rest (out @ [[bs, dq]]) in_d in_s esc
         else single_quotes_loop rest (out @ [[ch]]) in_d in_s esc)
      else if ch = dq then single_quotes_loop rest (out @ [[ch]]) True in_s esc
      else if ch = sq then single_quotes_loop rest (out @ [[dq]]) in_d True esc
      else single_quotes_loop rest (out @ [[ch]]) in_d in_s esc)"

definition single_quotes_to_double :: "string \<Rightarrow> string" where
  "single_quotes_to_double js = concat (single_quotes_loop js [] False False False)"

subsection \<open>\<open>strip_object_freeze\<close>\<close>

text \<open>
  The innermost loop copies a string literal that stands inside the call, up to and with
  its closing quote. Each loop returns the text still to read and the pieces emitted.
\<close>

fun freeze_string :: "string \<Rightarrow> string \<Rightarrow> bool \<Rightarrow> string list \<Rightarrow> string \<times> string list" where
  "freeze_string [] q esc2 out = ([], out)"
| "freeze_string (cc # rest) q esc2 out =
     (if esc2 then freeze_string rest q False (out @ [[cc]])
      else if cc = bs then freeze_string rest q True (out @ [[cc]])
      else if [cc] = q then (rest, out @ [[cc]])
      else freeze_string rest q esc2 (out @ [[cc]]))"

lemma freeze_string_length: "length (fst (freeze_string js q esc2 out)) \<le> length js"
  by (induction js q esc2 out rule: freeze_string.induct) (auto simp: le_SucI)

lemma freeze_string_length_eq:
  "(rest', out') = freeze_string js q esc2 out \<Longrightarrow> length rest' \<le> length js"
  using freeze_string_length [of js q esc2 out] by (metis fst_conv)

text \<open>The loop \<open>while i < len(js) and par > 0\<close> after \<open>Object.freeze(\<close>.\<close>

function freeze_inner :: "string \<Rightarrow> int \<Rightarrow> string list \<Rightarrow> string \<times> string list" where
  "freeze_inner [] par out = ([], out)"
| "freeze_inner (c # rest) par out =
     (if par > 0 then
        (if c = dq \<or> c = sq then
           (case freeze_string rest [c] False (out @ [[c]]) of
              (rest', out') \<Rightarrow> freeze_inner rest' par out')
         else if c = CHR ''('' then freeze_inner rest (par + 1) (out @ [[c]])
         else if c = CHR '')'' then
           (if par - 1 = 0 then (rest, out) else freeze_inner rest (par - 1) (out @ [[c]]))
         else freeze_inner rest par (out @ [[c]]))
      else (c # rest, out))"
  by pat_completeness auto
termination
  by (relation "measure (\<lambda>(js, par, out). length js)")
     (auto dest: freeze_string_length_eq simp: le_imp_less_Suc)

lemma freeze_inner_length: "length (fst (freeze_inner js par out)) \<le> length js"
proof (induction js par out rule: freeze_inner.induct)
  case (1 par out)
  then show ?case by simp
next
  case (2 c rest par out)
  show ?case
  proof (cases "par > 0 \<and> (c = dq \<or> c = sq)")
    case True
    obtain rest' out' where f: "freeze_string rest [c] False (out @ [[c]]) = (rest', out')"
      by (cases "freeze_string rest [c] False (out @ [[c]])")
    have "length rest' \<le> length rest"
      using freeze_string_length [of rest "[c]" False "out @ [[c]]"] by (simp add: f)
    moreover have "length (fst (freeze_inner rest' par out')) \<le> length rest'"
      using "2.IH"(1) True f by auto
    ultimately show ?thesis using True f by simp
  next
    case False
    then show ?thesis using "2.IH"(2-4) by (auto simp: le_SucI)
  qed
qed

lemma freeze_inner_length_eq:
  "(rest', out') = freeze_inner js par out \<Longrightarrow> length rest' \<le> length js"
  using freeze_inner_length [of js par out] by (metis fst_conv)

function strip_freeze_loop :: "string \<Rightarrow> string list \<Rightarrow> bool \<Rightarrow> bool \<Rightarrow> string \<Rightarrow> string list" where
  "strip_freeze_loop [] out in_str esc quote = out"
| "strip_freeze_loop (ch # rest) out in_str esc quote =
     (if in_str then
        (case in_string_step ch esc quote of
           (in_str', esc') \<Rightarrow> strip_freeze_loop rest (out @ [[ch]]) in_str' esc' quote)
      else if ch = dq \<or> ch = sq then strip_freeze_loop rest (out @ [[ch]]) True esc [ch]
      else if prefix ''Object.freeze('' (ch # rest) then
        (case freeze_inner (drop (length ''Object.freeze('') (ch # rest)) 1 out of
           (rest', out') \<Rightarrow> strip_freeze_loop rest' out' in_str esc quote)
      else strip_freeze_loop rest (out @ [[ch]]) in_str esc quote)"
  by pat_completeness auto
termination
  by (relation "measure (\<lambda>(js, out, in_str, esc, quote). length js)")
     (auto dest!: freeze_inner_length_eq)

definition strip_object_freeze :: "string \<Rightarrow> string" where
  "strip_object_freeze js = concat (strip_freeze_loop js [] False False [])"

subsection \<open>\<open>remove_trailing_commas\<close>\<close>

text \<open>The test made at a comma: after white space, the next character is \<open>}\<close> or \<open>]\<close>.\<close>

definition closes_next :: "string \<Rightarrow> bool" where
  "closes_next rest =
     (case dropWhile isspace rest of [] \<Rightarrow> False | c # _ \<Rightarrow> c = CHR ''}'' \<or> c = CHR '']'')"

fun trailing_commas_loop :: "string \<Rightarrow> string list \<Rightarrow> bool \<Rightarrow> bool \<Rightarrow> string \<Rightarrow> string list" where
  "trailing_commas_loop [] out in_str esc quote = out"
| "trailing_commas_loop (ch # rest) out in_str esc quote =
     (if in_str then
        (case in_string_step ch esc quote of
           (in_str', esc') \<Rightarrow> trailing_commas_loop rest (out @ [[ch]]) in_str' esc' quote)
      else if ch = dq \<or> ch = sq then trailing_commas_loop rest (out @ [[ch]]) True esc [ch]
      else if ch = CHR '','' \<and> closes_next rest then trailing_commas_loop rest out in_str esc quote
      else trailing_commas_loop rest (out @ [[ch]]) in_str esc quote)"

definition remove_trailing_commas :: "string \<Rightarrow> string" where
  "remove_trailing_commas js = concat (trailing_commas_loop js [] False False [])"

definition js_object_to_json_text :: "string \<Rightarrow> string" where
  "js_object_to_json_text js_obj =
     remove_trailing_commas (strip_object_freeze (single_quotes_to_double (quote_unquoted_keys js_obj)))"


section \<open>The flattener: the loop of \<open>main\<close> over days and events\<close>

text \<open>
  What the run takes from outside the repository: the JSON decoder (\<open>json.loads\<close> returns the
  decoded value or raises: \<open>JSONDecodeError\<close> on a text that is no JSON, \<open>RecursionError\<close> on a
  text nested too deep) and encoder, \<open>str\<close> of a value, the conversion of an epoch to Bangkok
  time (which raises on an epoch out of range), the clock, path resolution and the text of a
  traceback.
\<close>

record env =
  json_loads :: "string \<Rightarrow> error + json"
  json_dumps :: "json \<Rightarrow> string"
  py_str :: "json \<Rightarrow> string"
  epoch_to_bkk_iso :: "int \<Rightarrow> error + string"
  iso_utc_now :: string
  resolve :: "string \<Rightarrow> string"
  format_exc :: "error \<Rightarrow> string"

definition MARKER :: string where
  "MARKER = ''window.calendarComponentStates[1] =''"

definition IMPACT_SCORE :: "(string \<times> int) list" where
  "IMPACT_SCORE = [(''high'', 3), (''medium'', 2), (''low'', 1)]"

text \<open>The truth value Python gives a decoded value, as \<open>x or ""\<close> tests it.\<close>

fun truthy :: "json \<Rightarrow> bool" where
  "truthy JNull = False"
| "truthy (JBool b) = b"
| "truthy (JInt n) = (n \<noteq> 0)"
| "truthy (JFloat r) = (r \<noteq> 0)"
| "truthy (JStr s) = (s \<noteq> [])"
| "truthy (JList xs) = (xs \<noteq> [])"
| "truthy (JDict d) = (d \<noteq> [])"

text \<open>\<open>x.get(k, default)\<close> on a decoded value: only a dictionary has \<open>get\<close>.\<close>

fun attr_get :: "json \<Rightarrow> string \<Rightarrow> json \<Rightarrow> error + json" where
  "attr_get (JDict d) k dflt = Inr (case map_of d k of Some v \<Rightarrow> v | None \<Rightarrow> dflt)"
| "attr_get _ k dflt = Inl AttributeError"

text \<open>
  \<open>for x in v\<close>: a list gives its items, a dictionary its keys, a string its characters;
  nothing else can be iterated.
\<close>

fun py_iter :: "json \<Rightarrow> error + json list" where
  "py_iter (JList xs) = Inr xs"
| "py_iter (JDict d) = Inr (map (\<lambda>kv. JStr (fst kv)) d)"
| "py_iter (JStr s) = Inr (map (\<lambda>c. JStr [c]) s)"
| "py_iter _ = Inl TypeError"

text \<open>
  \<open>re.sub(r"<.*?>", "", s)\<close>: from a \<open><\<close>, the shortest run up to a \<open>>\<close> is removed, and
  the dot does not match a newline.
\<close>

fun tag_end :: "string \<Rightarrow> string option" where
  "tag_end [] = None"
| "tag_end (c # cs) =
     (if c = CHR ''>'' then Some cs else if c = CHR 0x0A then None else tag_end cs)"

lemma tag_end_length: "tag_end cs = Some rest \<Longrightarrow> length rest < length cs"
  by (induction cs) (auto split: if_splits)

function strip_tags :: "string \<Rightarrow> string" where
  "strip_tags [] = []"
| "strip_tags (c # cs) =
     (if c = CHR ''<'' then
        (case tag_end cs of Some rest \<Rightarrow> strip_tags rest | None \<Rightarrow> c # strip_tags cs)
      else c # strip_tags cs)"
  by pat_completeness auto
termination
  by (relation "measure length") (auto dest: tag_end_length)

definition strip_html_tags :: "json \<Rightarrow> error + string" where
  "strip_html_tags s =
     (if \<not> truthy s then Inr []
      else (case s of JStr t \<Rightarrow> Inr (strip_tags t) | _ \<Rightarrow> Inl TypeError))"

text \<open>\<open>(ev.get("impactName") or "").lower().strip()\<close>\<close>

definition impact_of :: "row \<Rightarrow> error + string" where
  "impact_of ev =
     (let v = py_get ev ''impactName''
      in if \<not> truthy v then Inr (strip (lower []))
         else (case v of JStr s \<Rightarrow> Inr (strip (lower s)) | _ \<Rightarrow> Inl AttributeError))"

text \<open>\<open>IMPACT_SCORE.get(impact, 0)\<close>\<close>

definition impact_score_of :: "string \<Rightarrow> int" where
  "impact_score_of impact = (case map_of IMPACT_SCORE impact of Some n \<Rightarrow> n | None \<Rightarrow> 0)"

definition make_row :: "string \<Rightarrow> row \<Rightarrow> string \<Rightarrow> string \<Rightarrow> row" where
  "make_row day_label ev datetime_bkk impact =
     [(''day_label'', JStr day_label),
      (''event_id'', py_get ev ''id''),
      (''dateline_epoch'', py_get ev ''dateline''),
      (''datetime_bkk'', JStr datetime_bkk),
      (''currency'', py_get ev ''currency''),
      (''country'', py_get ev ''country''),
      (''impact'', JStr impact),
      (''impact_score'', JInt (impact_score_of impact)),
      (''timeLabel'', py_get ev ''timeLabel''),
      (''name'', py_get ev ''name''),
      (''prefixedName'', py_get ev ''prefixedName''),
      (''actual'', py_get ev ''actual''),
      (''forecast'', py_get ev ''forecast''),
      (''previous'', py_get ev ''previous''),
      (''revision'', py_get ev ''revision''),
      (''url'', py_get ev ''url''),
      (''soloUrl'', py_get ev ''soloUrl'')]"

text \<open>The identity pair \<open>(event_id, epoch)\<close> of an event, when both are \<open>int\<close>.\<close>

definition event_pk :: "row \<Rightarrow> (int \<times> int) option" where
  "event_pk ev =
     (case as_int (py_get ev ''id'') of
        None \<Rightarrow> None
      | Some event_id \<Rightarrow>
          (case as_int (py_get ev ''dateline'') of
             None \<Rightarrow> None
           | Some epoch \<Rightarrow> Some (event_id, epoch)))"

text \<open>
  One turn of the inner loop. The state is \<open>rows\<close> and \<open>seen\<close>. An event that is not a
  dictionary has no \<open>get\<close>.
\<close>

definition event_step ::
  "env \<Rightarrow> string \<Rightarrow> row list \<times> (int \<times> int) set \<Rightarrow> json \<Rightarrow> error + row list \<times> (int \<times> int) set" where
  "event_step E day_label st ev_json =
     (case ev_json of
        JDict ev \<Rightarrow>
          (case event_pk ev of
             None \<Rightarrow> Inr st
           | Some pk \<Rightarrow>
               if pk \<in> snd st then Inr st
               else
                 (case impact_of ev of
                    Inl e \<Rightarrow> Inl e
                  | Inr impact \<Rightarrow>
                      (case epoch_to_bkk_iso E (snd pk) of
                         Inl e \<Rightarrow> Inl e
                       | Inr datetime_bkk \<Rightarrow>
                           Inr (fst st @ [make_row day_label ev datetime_bkk impact],
                                insert pk (snd st)))))
      | _ \<Rightarrow> Inl AttributeError)"

fun events_loop ::
  "env \<Rightarrow> string \<Rightarrow> row list \<times> (int \<times> int) set \<Rightarrow> json list \<Rightarrow> error + row list \<times> (int \<times> int) set" where
  "events_loop E day_label st [] = Inr st"
| "events_loop E day_label st (ev # evs) =
     (case event_step E day_label st ev of
        Inl e \<Rightarrow> Inl e
      | Inr st' \<Rightarrow> events_loop E day_label st' evs)"

definition day_step ::
  "env \<Rightarrow> row list \<times> (int \<times> int) set \<Rightarrow> json \<Rightarrow> error + row list \<times> (int \<times> int) set" where
  "day_step E st day =
     (case attr_get day ''date'' (JStr []) of
        Inl e \<Rightarrow> Inl e
      | Inr date \<Rightarrow>
          (case strip_html_tags date of
             Inl e \<Rightarrow> Inl e
           | Inr day_label \<Rightarrow>
               (case attr_get day ''events'' (JList []) of
                  Inl e \<Rightarrow> Inl e
                | Inr events \<Rightarrow>
                    (case py_iter events of
                       Inl e \<Rightarrow> Inl e
                     | Inr evs \<Rightarrow> events_loop E day_label st evs))))"

fun days_loop ::
  "env \<Rightarrow> row list \<times> (int \<times> int) set \<Rightarrow> json list \<Rightarrow> error + row list \<times> (int \<times> int) set" where
  "days_loop E st [] = Inr st"
| "days_loop E st (day # days) =
     (case day_step E st day of
        Inl e \<Rightarrow> Inl e
      | Inr st' \<Rightarrow> days_loop E st' days)"

text \<open>Lines 458 to 498 of \<open>main\<close>: from the decoded tree to \<open>rows\<close>.\<close>

definition flatten :: "env \<Rightarrow> json \<Rightarrow> error + row list" where
  "flatten E data =
     (case attr_get data ''days'' (JList []) of
        Inl e \<Rightarrow> Inl e
      | Inr days \<Rightarrow>
          (case py_iter days of
             Inl e \<Rightarrow> Inl e
           | Inr ds \<Rightarrow>
               (case days_loop E ([], {}) ds of
                  Inl e \<Rightarrow> Inl e
                | Inr st \<Rightarrow> Inr (fst st))))"

section \<open>The run: \<open>load_existing_events\<close>, \<open>write_csv\<close> and \<open>main\<close>\<close>

text \<open>
  The files the run reads and writes: a map from a path to what is there. A path that exists
  holds a file whose bytes are the UTF-8 encoding of a text (\<open>Text\<close>), a file whose bytes are
  not valid UTF-8 (\<open>NotUtf8\<close>, with the text that is left when the bytes that do not decode
  are ignored), or a directory. The console is not modelled.
\<close>

datatype entry = Text string | NotUtf8 string | Directory

type_synonym files = "string \<Rightarrow> entry option"

text \<open>\<open>path.read_text(encoding="utf-8")\<close> of a path that exists.\<close>

fun read_text :: "entry \<Rightarrow> error + string" where
  "read_text (Text t) = Inr t"
| "read_text (NotUtf8 t) = Inl UnicodeDecodeError"
| "read_text Directory = Inl OSError"

text \<open>\<open>path.read_text(encoding="utf-8", errors="ignore")\<close> of a path that exists.\<close>

fun read_text_ignore :: "entry \<Rightarrow> error + string" where
  "read_text_ignore (Text t) = Inr t"
| "read_text_ignore (NotUtf8 t) = Inr t"
| "read_text_ignore Directory = Inl OSError"

text \<open>\<open>path.write_text(t, encoding="utf-8")\<close>: the file is created or replaced.\<close>

definition write_text :: "files \<Rightarrow> string \<Rightarrow> string \<Rightarrow> error + files" where
  "write_text fs path t = (if fs path = Some Directory then Inl OSError else Inr (fs (path \<mapsto> Text t)))"

definition ART_DIR :: string where "ART_DIR = ''python/Data/raw_data/calendar''"
definition IN_HTML :: string where "IN_HTML = ART_DIR @ ''/calendar_document.html''"
definition OUT_EVENTS_JSON :: string where "OUT_EVENTS_JSON = ART_DIR @ ''/calendar_all_event.json''"
definition OUT_EVENTS_CSV :: string where "OUT_EVENTS_CSV = ART_DIR @ ''/calendar_all_event.csv''"
definition OUT_META :: string where "OUT_META = ART_DIR @ ''/events.meta.json''"
definition OUT_ERR :: string where "OUT_ERR = ART_DIR @ ''/extract_error.txt''"

fun is_dict :: "json \<Rightarrow> bool" where
  "is_dict (JDict d) = True"
| "is_dict _ = False"

fun dict_of :: "json \<Rightarrow> row" where
  "dict_of (JDict d) = d"
| "dict_of _ = []"

text \<open>
  \<open>load_existing_events\<close>: the \<open>try\<close> covers the reading and the decoding, and its
  \<open>except\<close> clause catches \<open>json.JSONDecodeError\<close> only.
\<close>

definition load_existing_events :: "env \<Rightarrow> files \<Rightarrow> string \<Rightarrow> error + row list" where
  "load_existing_events E fs path =
     (case fs path of
        None \<Rightarrow> Inr []
      | Some f \<Rightarrow>
          (case read_text f of
             Inl e \<Rightarrow> Inl e
           | Inr t \<Rightarrow>
               (case json_loads E t of
                  Inl e \<Rightarrow> (if e = JSONDecodeError then Inr [] else Inl e)
                | Inr payload \<Rightarrow>
                    (case payload of
                       JList xs \<Rightarrow> Inr (map dict_of (filter is_dict xs))
                     | _ \<Rightarrow> Inr []))))"

definition esc_csv :: "env \<Rightarrow> json \<Rightarrow> string" where
  "esc_csv E x =
     (let s = (if x = JNull then [] else py_str E x)
      in if CHR '','' \<in> set s \<or> dq \<in> set s \<or> CHR 0x0A \<in> set s
         then [dq] @ concat (map (\<lambda>c. if c = dq then [dq, dq] else [c]) s) @ [dq]
         else s)"

fun join :: "string \<Rightarrow> string list \<Rightarrow> string" where
  "join sep [] = []"
| "join sep [x] = x"
| "join sep (x # y # ys) = x @ sep @ join sep (y # ys)"

definition csv_text :: "env \<Rightarrow> row list \<Rightarrow> string" where
  "csv_text E rows =
     (case rows of
        [] \<Rightarrow> []
      | r0 # _ \<Rightarrow>
          (let headers = map fst r0
           in join '','' headers @ [CHR 0x0A]
              @ concat (map (\<lambda>r. join '','' (map (\<lambda>h. esc_csv E (py_get r h)) headers) @ [CHR 0x0A]) rows)))"

definition meta_of :: "env \<Rightarrow> row list \<Rightarrow> json" where
  "meta_of E rows =
     JDict [(''generated_at_utc'', JStr (iso_utc_now E)),
            (''input_html'', JStr (resolve E IN_HTML)),
            (''marker'', JStr MARKER),
            (''events_count'', JInt (int (length rows))),
            (''output_events_json'', JStr (resolve E OUT_EVENTS_JSON)),
            (''output_events_csv'', JStr (resolve E OUT_EVENTS_CSV)),
            (''dedupe_key'', JStr ''(event_id, dateline_epoch)''),
            (''merge_policy'', JStr ''merge by key, overwrite actual when provided'')]"

text \<open>
  The three writes that end \<open>main\<close>: the files they leave, and the exception of the write
  that failed, if one did.
\<close>

definition write_outputs :: "env \<Rightarrow> files \<Rightarrow> row list \<Rightarrow> files \<times> error option" where
  "write_outputs E fs rows =
     (case write_text fs OUT_EVENTS_JSON (json_dumps E (JList (map JDict rows))) of
        Inl e \<Rightarrow> (fs, Some e)
      | Inr fs1 \<Rightarrow>
          (case write_text fs1 OUT_EVENTS_CSV (csv_text E rows) of
             Inl e \<Rightarrow> (fs1, Some e)
           | Inr fs2 \<Rightarrow>
               (case write_text fs2 OUT_META (json_dumps E (meta_of E rows)) of
                  Inl e \<Rightarrow> (fs2, Some e)
                | Inr fs3 \<Rightarrow> (fs3, None))))"

text \<open>\<open>main\<close>: the files after it, and the exception that ended it, if one did.\<close>

definition main :: "env \<Rightarrow> files \<Rightarrow> files \<times> error option" where
  "main E fs =
     (case fs IN_HTML of
        None \<Rightarrow> (fs, Some FileNotFoundError)
      | Some f \<Rightarrow>
          (case read_text_ignore f of
             Inl e \<Rightarrow> (fs, Some e)
           | Inr html \<Rightarrow>
               (case extract_object_literal html MARKER of
                  Inl e \<Rightarrow> (fs, Some e)
                | Inr js_obj \<Rightarrow>
                    (case json_loads E (js_object_to_json_text js_obj) of
                       Inl e \<Rightarrow> (fs, Some e)
                     | Inr data \<Rightarrow>
                         (case flatten E data of
                            Inl e \<Rightarrow> (fs, Some e)
                          | Inr new_rows \<Rightarrow>
                              (case load_existing_events E fs OUT_EVENTS_JSON of
                                 Inl e \<Rightarrow> (fs, Some e)
                               | Inr existing_rows \<Rightarrow>
                                   write_outputs E fs
                                     (sort_events_desc (merge_events existing_rows new_rows))))))))"

text \<open>
  The script body: \<open>main()\<close> under \<open>try\<close>, and on any exception the traceback is written
  to \<open>OUT_ERR\<close>; that write is outside the \<open>try\<close>.
\<close>

definition run :: "env \<Rightarrow> files \<Rightarrow> files" where
  "run E fs =
     (case main E fs of
        (fs', None) \<Rightarrow> fs'
      | (fs', Some e) \<Rightarrow>
          (case write_text fs' OUT_ERR (format_exc E e) of Inl e' \<Rightarrow> fs' | Inr fs'' \<Rightarrow> fs''))"


section \<open>What the specification says of the flattener\<close>

text \<open>The label of an event: its \<open>impactName\<close> when that is a string, the empty string otherwise.\<close>

definition impact_label :: "row \<Rightarrow> string" where
  "impact_label ev = (case py_get ev ''impactName'' of JStr s \<Rightarrow> s | _ \<Rightarrow> [])"







text \<open>An environment for the examples: its decoder rejects every text.\<close>

definition stub_env :: env where
  "stub_env = \<lparr>json_loads = (\<lambda>s. Inl JSONDecodeError), json_dumps = (\<lambda>v. []), py_str = (\<lambda>v. []),
     epoch_to_bkk_iso = (\<lambda>n. Inr []), iso_utc_now = [], resolve = (\<lambda>p. p),
     format_exc = (\<lambda>e. [])\<rparr>"


text \<open>
  A second environment for the examples: its decoder knows one text, which it decodes as
  \<open>json.loads\<close> does, and rejects every other text.
\<close>

definition demo_env :: env where
  \<open>demo_env = stub_env\<lparr>json_loads :=
     (\<lambda>s. if s = ''{"days":[]}'' then Inr (JDict [(''days'', JList [])]) else Inl JSONDecodeError)\<rparr>\<close>

section \<open>What the specification says of the locator\<close>






text \<open>
  The quote-aware scanner of the specification, with the depth counter of the locator: the
  state, the state before the first character, and the step over one character.
\<close>

record scanner =
  in_string :: bool
  escaped :: bool
  quote_char :: string
  depth :: int







section \<open>Properties of the consolidator\<close>

lemma map_of_field_step:
  "map_of (field_step m fv) f =
     (if f = fst fv \<and> fst fv \<noteq> ''actual'' \<and> \<not> is_none_or_empty (snd fv) then Some (snd fv) else map_of m f)"
  by (simp add: field_step_def update_conv')

lemma map_of_foldl_field_step:
  "distinct (map fst r) \<Longrightarrow>
   map_of (foldl field_step m r) f =
     (case map_of r f of
        Some v \<Rightarrow> if f \<noteq> ''actual'' \<and> \<not> is_none_or_empty v then Some v else map_of m f
      | None \<Rightarrow> map_of m f)"
proof (induction r arbitrary: m)
  case Nil
  then show ?case by simp
next
  case (Cons a r)
  obtain g w where a: "a = (g, w)" by (cases a)
  from Cons.prems have d: "distinct (map fst r)" and g: "g \<notin> fst ` set r" by (auto simp: a)
  have gn: "map_of r g = None" using g by (simp add: map_of_eq_None_iff)
  show ?case
    using Cons.IH [OF d, of "field_step m a"] gn
    by (auto simp: a map_of_field_step split: option.splits)
qed

lemma map_of_merge_row:
  assumes "distinct (map fst r)"
  shows "map_of (merge_row old r) f =
     (case map_of r f of
        Some v \<Rightarrow> if is_none_or_empty v then map_of old f else Some v
      | None \<Rightarrow> map_of old f)"
  using assms
  by (auto simp: merge_row_def Let_def map_of_foldl_field_step py_get_def update_conv' is_none_or_empty_def
           split: option.splits)

lemma py_get_merge_row:
  assumes "distinct (map fst r)"
  shows "py_get (merge_row old r) f =
     (if is_none_or_empty (py_get r f) then py_get old f else py_get r f)"
  using assms
  by (auto simp: py_get_def map_of_merge_row is_none_or_empty_def split: option.splits)

lemma as_int_blank: "is_none_or_empty v \<Longrightarrow> as_int v = None"
  by (auto simp: is_none_or_empty_def)

lemma key_of_merge_row:
  assumes "distinct (map fst r)" "key_of r = Some k" "key_of old = Some k"
  shows "key_of (merge_row old r) = Some k"
proof -
  from assms(2) obtain a b where
    "as_int (py_get r ''event_id'') = Some a" "as_int (py_get r ''dateline_epoch'') = Some b"
    by (auto simp: key_of_def split: option.splits)
  with assms(2) show ?thesis
    by (auto simp: key_of_def py_get_merge_row [OF assms(1)] dest: as_int_blank split: option.splits)
qed

lemma set_update_subset: "set (AList.update k v al) \<subseteq> insert (k, v) (set al)"
  by (induction al) auto

lemma store_inv_update:
  "store_inv merged \<Longrightarrow> key_of r = Some k \<Longrightarrow> store_inv (AList.update k r merged)"
  using set_update_subset [of k r merged]
  by (auto simp: store_inv_def distinct_update)

lemma store_inv_load_step: "store_inv merged \<Longrightarrow> store_inv (load_step merged r)"
  by (auto simp: load_step_def store_inv_update split: option.splits)

lemma store_inv_incoming_step:
  assumes "store_inv merged" "distinct (map fst r)"
  shows "store_inv (incoming_step merged r)"
proof (cases "key_of r")
  case None
  then show ?thesis using assms by (simp add: incoming_step_def)
next
  case (Some k)
  show ?thesis
  proof (cases "map_of merged k")
    case None
    then show ?thesis using assms Some by (simp add: incoming_step_def store_inv_update)
  next
    case (Some old)
    then have "(k, old) \<in> set merged" by (rule map_of_SomeD)
    with assms(1) have "key_of old = Some k" by (auto simp: store_inv_def)
    with \<open>key_of r = Some k\<close> assms Some show ?thesis
      by (simp add: incoming_step_def store_inv_update key_of_merge_row)
  qed
qed

lemma store_inv_foldl_load: "store_inv merged \<Longrightarrow> store_inv (foldl load_step merged rows)"
  by (induction rows arbitrary: merged) (auto simp: store_inv_load_step)

lemma store_inv_foldl_incoming:
  "store_inv merged \<Longrightarrow> \<forall>r \<in> set rows. distinct (map fst r) \<Longrightarrow>
   store_inv (foldl incoming_step merged rows)"
  by (induction rows arbitrary: merged) (auto simp: store_inv_incoming_step)

lemma store_inv_Nil: "store_inv []"
  by (simp add: store_inv_def)

lemma store_inv_keys:
  assumes "store_inv merged"
  shows "map key_of (map snd merged) = map (Some \<circ> fst) merged"
  using assms by (auto simp: store_inv_def)

lemma sort_key_of_le: "sort_key_of a \<le> sort_key_of b \<longleftrightarrow> newer_first a b"
  by (auto simp: sort_key_of_def newer_first_def less_eq_prod_simp)

lemma sorted_sort_events_desc: "sorted_wrt newer_first (sort_events_desc rows)"
proof -
  have "sorted (map sort_key_of (sort_key sort_key_of rows))" by (rule sorted_sort_key)
  then show ?thesis
    by (simp add: sorted_map sort_events_desc_def sort_key_of_le)
qed

lemma key_of_vals: "key_of r = Some (i, e) \<Longrightarrow> event_val r = i \<and> epoch_val r = e"
  by (auto simp: key_of_def event_val_def epoch_val_def split: option.splits)



text \<open>
  C9. Every record \<open>merge_events\<close> returns has an \<open>int\<close> event id and an \<open>int\<close> epoch (in
  Python's sense, where a \<open>bool\<close> is an \<open>int\<close>), no two records of the result share the pair
  \<open>(event_id, dateline_epoch)\<close>, and a record of the persisted store without such a pair is
  not in the result. The incoming rows are dictionaries: no field occurs twice in a row.
\<close>

theorem merge_events_keys:
  assumes "\<forall>r \<in> set incoming. distinct (map fst r)"
  shows "(\<forall>r \<in> set (merge_events existing incoming). \<exists>event_id epoch. key_of r = Some (event_id, epoch))
       \<and> distinct (map key_of (merge_events existing incoming))
       \<and> (\<forall>r \<in> set existing. key_of r = None \<longrightarrow> r \<notin> set (merge_events existing incoming))"
proof -
  let ?m = "foldl incoming_step (foldl load_step [] existing) incoming"
  have inv: "store_inv ?m"
    using assms by (intro store_inv_foldl_incoming store_inv_foldl_load store_inv_Nil)
  have keys: "map key_of (merge_events existing incoming) = map (Some \<circ> fst) ?m"
    using store_inv_keys [OF inv] by (simp add: merge_events_def)
  have a: "\<forall>r \<in> set (merge_events existing incoming). \<exists>event_id epoch. key_of r = Some (event_id, epoch)"
    using inv by (fastforce simp: merge_events_def store_inv_def)
  have "distinct (map (Some \<circ> fst) ?m)"
    using inv by (simp add: store_inv_def distinct_map inj_on_def comp_def)
  then have b: "distinct (map key_of (merge_events existing incoming))"
    by (simp add: keys)
  from a have c: "\<forall>r \<in> set existing. key_of r = None \<longrightarrow> r \<notin> set (merge_events existing incoming)"
    by fastforce
  from a b c show ?thesis by blast
qed

theorem merge_events_keys_witness:
  "distinct (map fst [(''event_id'', JInt 5), (''dateline_epoch'', JInt 10), (''actual'', JStr ''1.2'')])
   \<and> distinct (map key_of (merge_events
         [[(''event_id'', JInt 5), (''dateline_epoch'', JInt 10)], [(''event_id'', JStr ''x'')]]
         [[(''event_id'', JInt 5), (''dateline_epoch'', JInt 10), (''actual'', JStr ''1.2'')]]))
   \<and> [(''event_id'', JStr ''x'')] \<notin> set (merge_events
         [[(''event_id'', JInt 5), (''dateline_epoch'', JInt 10)], [(''event_id'', JStr ''x'')]]
         [[(''event_id'', JInt 5), (''dateline_epoch'', JInt 10), (''actual'', JStr ''1.2'')]])"
proof -
  have h: "\<forall>r \<in> set [[(''event_id'', JInt 5), (''dateline_epoch'', JInt 10), (''actual'', JStr ''1.2'')]].
             distinct (map fst r)"
    by simp
  have k: "key_of [(''event_id'', JStr ''x'')] = None"
    by (simp add: key_of_def py_get_def)
  show ?thesis
    using merge_events_keys [OF h,
        of "[[(''event_id'', JInt 5), (''dateline_epoch'', JInt 10)], [(''event_id'', JStr ''x'')]]"] k
    by simp
qed








lemma merge_events_store:
  assumes "\<forall>r \<in> set incoming. distinct (map fst r)"
  shows "distinct (map key_of (merge_events existing incoming))"
    and "\<forall>r \<in> set (merge_events existing incoming). \<exists>i e. key_of r = Some (i, e)"
proof -
  let ?m = "foldl incoming_step (foldl load_step [] existing) incoming"
  have inv: "store_inv ?m"
    using assms by (intro store_inv_foldl_incoming store_inv_foldl_load store_inv_Nil)
  have keys: "map key_of (merge_events existing incoming) = map (Some \<circ> fst) ?m"
    using store_inv_keys [OF inv] by (simp add: merge_events_def)
  have "distinct (map (Some \<circ> fst) ?m)"
    using inv by (simp add: store_inv_def distinct_map inj_on_def comp_def)
  then show "distinct (map key_of (merge_events existing incoming))" by (simp add: keys)
  show "\<forall>r \<in> set (merge_events existing incoming). \<exists>i e. key_of r = Some (i, e)"
    using inv by (fastforce simp: merge_events_def store_inv_def)
qed

lemma key_of_as_int:
  "key_of r = Some (i, e) \<longleftrightarrow>
     as_int (py_get r ''event_id'') = Some i \<and> as_int (py_get r ''dateline_epoch'') = Some e"
  by (auto simp: key_of_def split: option.splits)

lemma sorted_wrt_strict:
  assumes s: "sorted_wrt newer_first xs"
    and d: "distinct (map key_of xs)"
    and k: "\<forall>r \<in> set xs. \<exists>i e. key_of r = Some (i, e)"
  shows "sorted_wrt (\<lambda>a b. \<exists>i e j d. key_of a = Some (i, e) \<and> key_of b = Some (j, d)
                        \<and> (d < e \<or> (d = e \<and> j < i))) xs"
  using assms
proof (induction xs)
  case Nil
  then show ?case by simp
next
  case (Cons a xs)
  from Cons.prems obtain i e where a: "key_of a = Some (i, e)" by auto
  have "\<exists>i e j d. key_of a = Some (i, e) \<and> key_of b = Some (j, d) \<and> (d < e \<or> (d = e \<and> j < i))"
    if b: "b \<in> set xs" for b
  proof -
    from Cons.prems b obtain j d where kb: "key_of b = Some (j, d)" by auto
    from Cons.prems b have n: "newer_first a b" by simp
    from Cons.prems b have "key_of a \<noteq> key_of b" by auto
    with a kb have ne: "(i, e) \<noteq> (j, d)" by simp
    from key_of_vals [OF a] key_of_vals [OF kb] n have "d < e \<or> (d = e \<and> j \<le> i)"
      by (auto simp: newer_first_def)
    with ne have "d < e \<or> (d = e \<and> j < i)" by auto
    with a kb show ?thesis by blast
  qed
  moreover have "sorted_wrt (\<lambda>a b. \<exists>i e j d. key_of a = Some (i, e) \<and> key_of b = Some (j, d)
                        \<and> (d < e \<or> (d = e \<and> j < i))) xs"
    using Cons.prems by (intro Cons.IH) simp_all
  ultimately show ?case by simp
qed

text \<open>
  C5. The store \<open>main\<close> writes is \<open>sort_events_desc\<close> of the merged records. It holds the
  records of the merge, each as often as the merge does. Along it the epoch goes down and,
  within one epoch, the event id goes down; it does so strictly, since no two records of a
  merge share both. Every record of it has an \<open>int\<close> epoch and an \<open>int\<close> event id (in Python's
  sense, where a \<open>bool\<close> is an \<open>int\<close>): after a merge the store holds no record with a missing
  or non-integer key, so no record of a store is ranked by the value \<open>-1\<close> that \<open>sort_key\<close>
  gives a missing key. The incoming rows are dictionaries: no field occurs twice in a row.
\<close>

theorem store_ordering:
  assumes "\<forall>r \<in> set incoming. distinct (map fst r)"
  shows "sorted_wrt (\<lambda>a b. \<exists>i e j d. key_of a = Some (i, e) \<and> key_of b = Some (j, d)
                        \<and> (d < e \<or> (d = e \<and> j < i)))
           (sort_events_desc (merge_events existing incoming))
       \<and> mset (sort_events_desc (merge_events existing incoming)) = mset (merge_events existing incoming)
       \<and> (\<forall>r \<in> set (sort_events_desc (merge_events existing incoming)).
             \<exists>i e. as_int (py_get r ''event_id'') = Some i \<and> as_int (py_get r ''dateline_epoch'') = Some e)"
proof -
  let ?M = "merge_events existing incoming"
  let ?S = "sort_events_desc ?M"
  have p: "mset ?S = mset ?M" by (simp add: sort_events_desc_def)
  have st: "set ?S = set ?M" by (simp add: sort_events_desc_def)
  have k: "\<forall>r \<in> set ?S. \<exists>i e. key_of r = Some (i, e)"
    using merge_events_store(2) [OF assms] by (simp add: st)
  have "mset (map key_of ?S) = mset (map key_of ?M)" using p by (metis mset_map)
  then have d: "distinct (map key_of ?S)"
    using merge_events_store(1) [OF assms] by (metis mset_eq_imp_distinct_iff)
  have s: "sorted_wrt newer_first ?S" by (rule sorted_sort_events_desc)
  have a: "sorted_wrt (\<lambda>a b. \<exists>i e j d. key_of a = Some (i, e) \<and> key_of b = Some (j, d)
                        \<and> (d < e \<or> (d = e \<and> j < i))) ?S"
    using s d k by (rule sorted_wrt_strict)
  have c: "\<forall>r \<in> set ?S. \<exists>i e. as_int (py_get r ''event_id'') = Some i
               \<and> as_int (py_get r ''dateline_epoch'') = Some e"
    using k by (simp add: key_of_as_int)
  from a p c show ?thesis by blast
qed

theorem store_ordering_witness:
  "list_all (\<lambda>r. distinct (map fst r))
     [[(''event_id'', JInt 3), (''dateline_epoch'', JInt 7)],
      [(''event_id'', JInt 4), (''dateline_epoch'', JInt 5)]]
   \<and> sort_events_desc (merge_events
        [[(''event_id'', JInt 1), (''dateline_epoch'', JInt 5)], [(''event_id'', JInt 2)]]
        [[(''event_id'', JInt 3), (''dateline_epoch'', JInt 7)],
         [(''event_id'', JInt 4), (''dateline_epoch'', JInt 5)]])
     = [[(''event_id'', JInt 3), (''dateline_epoch'', JInt 7)],
        [(''event_id'', JInt 4), (''dateline_epoch'', JInt 5)],
        [(''event_id'', JInt 1), (''dateline_epoch'', JInt 5)]]
   \<and> sorted_wrt (\<lambda>a b. \<exists>i e j d. key_of a = Some (i, e) \<and> key_of b = Some (j, d)
                        \<and> (d < e \<or> (d = e \<and> j < i)))
        [[(''event_id'', JInt 3), (''dateline_epoch'', JInt 7)],
         [(''event_id'', JInt 4), (''dateline_epoch'', JInt 5)],
         [(''event_id'', JInt 1), (''dateline_epoch'', JInt 5)]]"
proof -
  let ?ex = "[[(''event_id'', JInt 1), (''dateline_epoch'', JInt 5)], [(''event_id'', JInt 2)]]"
  let ?inc = "[[(''event_id'', JInt 3), (''dateline_epoch'', JInt 7)],
               [(''event_id'', JInt 4), (''dateline_epoch'', JInt 5)]]"
  have h: "\<forall>r \<in> set ?inc. distinct (map fst r)" by simp
  have v: "sort_events_desc (merge_events ?ex ?inc)
     = [[(''event_id'', JInt 3), (''dateline_epoch'', JInt 7)],
        [(''event_id'', JInt 4), (''dateline_epoch'', JInt 5)],
        [(''event_id'', JInt 1), (''dateline_epoch'', JInt 5)]]"
    by code_simp
  have l: "list_all (\<lambda>r. distinct (map fst r)) ?inc" by simp
  from store_ordering [OF h, of ?ex] show ?thesis unfolding v using l by blast
qed

section \<open>Properties of the flattener\<close>

lemma py_get_Cons: "py_get ((k, v) # r) f = (if f = k then v else py_get r f)"
  by (simp add: py_get_def)













lemma impact_of_label: "impact_of ev = Inr impact \<Longrightarrow> impact = strip (lower (impact_label ev))"
  by (cases "py_get ev ''impactName''")
     (auto simp: impact_of_def impact_label_def Let_def split: if_splits)

lemma impact_score_of_if:
  "impact_score_of impact =
     (if impact = ''high'' then 3 else if impact = ''medium'' then 2
      else if impact = ''low'' then 1 else 0)"
  by (simp add: impact_score_of_def IMPACT_SCORE_def)

text \<open>
  C8. When the flattener adds a record for an event, the field \<open>impact\<close> of the record is the
  label of the event in lower case and stripped, and \<open>impact_score\<close> is 3 when that is exactly
  \<open>high\<close>, 2 for \<open>medium\<close>, 1 for \<open>low\<close>, and 0 for anything else.
\<close>

theorem impact_score_table:
  assumes "event_step E day_label (rows, seen) (JDict ev) = Inr (rows', seen')"
    and "rows' \<noteq> rows"
  shows "\<exists>r. rows' = rows @ [r]
           \<and> py_get r ''impact'' = JStr (strip (lower (impact_label ev)))
           \<and> py_get r ''impact_score'' =
               JInt (if strip (lower (impact_label ev)) = ''high'' then 3
                     else if strip (lower (impact_label ev)) = ''medium'' then 2
                     else if strip (lower (impact_label ev)) = ''low'' then 1 else 0)"
proof -
  from assms obtain impact dt where
    i: "impact_of ev = Inr impact" and r: "rows' = rows @ [make_row day_label ev dt impact]"
    by (auto simp: event_step_def split: option.splits if_splits sum.splits)
  have l: "impact = strip (lower (impact_label ev))" using i by (rule impact_of_label)
  have "py_get (make_row day_label ev dt impact) ''impact'' = JStr impact"
    and "py_get (make_row day_label ev dt impact) ''impact_score'' = JInt (impact_score_of impact)"
    by (simp_all add: make_row_def py_get_Cons)
  then show ?thesis using r l by (simp add: impact_score_of_if)
qed

theorem impact_score_table_witness:
  "event_step stub_env ''Mon'' ([], {})
     (JDict [(''id'', JInt 101), (''dateline'', JInt 1700000000), (''impactName'', JStr '' High'')])
   = Inr ([make_row ''Mon'' [(''id'', JInt 101), (''dateline'', JInt 1700000000), (''impactName'', JStr '' High'')] [] ''high''],
          {(101, 1700000000)})
   \<and> py_get (make_row ''Mon'' [(''id'', JInt 101), (''dateline'', JInt 1700000000), (''impactName'', JStr '' High'')] [] ''high'')
        ''impact_score'' = JInt 3"
proof -
  let ?ev = "[(''id'', JInt 101), (''dateline'', JInt 1700000000), (''impactName'', JStr '' High'')]"
  have s: "event_step stub_env ''Mon'' ([], {}) (JDict ?ev)
         = Inr ([make_row ''Mon'' ?ev [] ''high''], {(101, 1700000000)})"
    by code_simp
  have n: "[make_row ''Mon'' ?ev [] ''high''] \<noteq> []" by simp
  have l: "strip (lower (impact_label ?ev)) = ''high''" by code_simp
  from impact_score_table [OF s n] show ?thesis using s l by simp
qed

lemma impact_score_of_variants:
  "impact_score_of ''high-impact'' = 0 \<and> impact_score_of [] = 0 \<and> impact_score_of ''high'' = 3
   \<and> impact_of [(''impactName'', JStr ''HIGH-Impact'')] = Inr ''high-impact''
   \<and> impact_of [] = Inr []"
  by code_simp

section \<open>Properties of the store loader\<close>

lemma JDict_dict_of: "is_dict x \<Longrightarrow> JDict (dict_of x) = x"
  by (cases x) auto

lemma map_JDict_dict_of: "map JDict (map dict_of (filter is_dict xs)) = filter is_dict xs"
  by (induction xs) (auto simp: JDict_dict_of)

lemma run_failed:
  assumes "main E fs = (fs, Some e)" "p \<noteq> OUT_ERR"
  shows "run E fs p = fs p"
  using assms by (simp add: run_def write_text_def)

text \<open>
  C10, as the code has it. \<open>load_existing_events\<close> returns the empty list when the file does
  not exist, when the file is UTF-8 text that the decoder rejects with \<open>JSONDecodeError\<close>, and
  when the decoded payload is not a list; of a list it returns the dictionaries, in their
  order, and drops everything else. Its \<open>except\<close> clause catches \<open>JSONDecodeError\<close> only: a
  file that is not valid UTF-8 (\<open>UnicodeDecodeError\<close>), a directory at the path (\<open>OSError\<close>)
  and any other exception of the decoder (\<open>RecursionError\<close>, say) make it raise, and a run
  that has come as far as loading the store then ends with that exception and writes none of
  its three outputs.
\<close>

theorem load_existing_events_cases:
  "(fs path = None \<longrightarrow> load_existing_events E fs path = Inr [])
   \<and> (fs path = Some (Text t) \<and> json_loads E t = Inl JSONDecodeError
        \<longrightarrow> load_existing_events E fs path = Inr [])
   \<and> (fs path = Some (Text t) \<and> json_loads E t = Inr payload \<and> (\<forall>xs. payload \<noteq> JList xs)
        \<longrightarrow> load_existing_events E fs path = Inr [])
   \<and> (fs path = Some (Text t) \<and> json_loads E t = Inr (JList xs)
        \<longrightarrow> (\<exists>rows. load_existing_events E fs path = Inr rows \<and> map JDict rows = filter is_dict xs))
   \<and> (fs path = Some (NotUtf8 t) \<longrightarrow> load_existing_events E fs path = Inl UnicodeDecodeError)
   \<and> (fs path = Some Directory \<longrightarrow> load_existing_events E fs path = Inl OSError)
   \<and> (fs path = Some (Text t) \<and> json_loads E t = Inl e \<and> e \<noteq> JSONDecodeError
        \<longrightarrow> load_existing_events E fs path = Inl e)
   \<and> (fs IN_HTML = Some f \<and> read_text_ignore f = Inr html
        \<and> extract_object_literal html MARKER = Inr js_obj
        \<and> json_loads E (js_object_to_json_text js_obj) = Inr data
        \<and> flatten E data = Inr new_rows
        \<and> load_existing_events E fs OUT_EVENTS_JSON = Inl e
        \<longrightarrow> main E fs = (fs, Some e) \<and> (\<forall>p. p \<noteq> OUT_ERR \<longrightarrow> run E fs p = fs p))"
proof -
  have a: "fs path = None \<longrightarrow> load_existing_events E fs path = Inr []"
    by (simp add: load_existing_events_def)
  have b: "fs path = Some (Text t) \<and> json_loads E t = Inl JSONDecodeError
        \<longrightarrow> load_existing_events E fs path = Inr []"
    by (simp add: load_existing_events_def)
  have c: "fs path = Some (Text t) \<and> json_loads E t = Inr payload \<and> (\<forall>xs. payload \<noteq> JList xs)
        \<longrightarrow> load_existing_events E fs path = Inr []"
    by (cases payload) (simp_all add: load_existing_events_def)
  have d: "fs path = Some (Text t) \<and> json_loads E t = Inr (JList xs)
        \<longrightarrow> (\<exists>rows. load_existing_events E fs path = Inr rows \<and> map JDict rows = filter is_dict xs)"
    using map_JDict_dict_of [of xs] by (simp add: load_existing_events_def)
  have e: "fs path = Some (NotUtf8 t) \<longrightarrow> load_existing_events E fs path = Inl UnicodeDecodeError"
    by (simp add: load_existing_events_def)
  have f: "fs path = Some Directory \<longrightarrow> load_existing_events E fs path = Inl OSError"
    by (simp add: load_existing_events_def)
  have g: "fs path = Some (Text t) \<and> json_loads E t = Inl e \<and> e \<noteq> JSONDecodeError
        \<longrightarrow> load_existing_events E fs path = Inl e"
    by (simp add: load_existing_events_def)
  have h: "fs IN_HTML = Some f \<and> read_text_ignore f = Inr html
        \<and> extract_object_literal html MARKER = Inr js_obj
        \<and> json_loads E (js_object_to_json_text js_obj) = Inr data
        \<and> flatten E data = Inr new_rows
        \<and> load_existing_events E fs OUT_EVENTS_JSON = Inl e
        \<longrightarrow> main E fs = (fs, Some e) \<and> (\<forall>p. p \<noteq> OUT_ERR \<longrightarrow> run E fs p = fs p)"
  proof
    assume p: "fs IN_HTML = Some f \<and> read_text_ignore f = Inr html
        \<and> extract_object_literal html MARKER = Inr js_obj
        \<and> json_loads E (js_object_to_json_text js_obj) = Inr data
        \<and> flatten E data = Inr new_rows
        \<and> load_existing_events E fs OUT_EVENTS_JSON = Inl e"
    then have m: "main E fs = (fs, Some e)" by (simp add: main_def)
    then have "\<forall>p. p \<noteq> OUT_ERR \<longrightarrow> run E fs p = fs p" by (simp add: run_failed)
    with m show "main E fs = (fs, Some e) \<and> (\<forall>p. p \<noteq> OUT_ERR \<longrightarrow> run E fs p = fs p)" by simp
  qed
  from a b c d e f g h show ?thesis by blast
qed

theorem load_existing_events_cases_witness:
  \<open>load_existing_events demo_env Map.empty OUT_EVENTS_JSON = Inr []
   \<and> load_existing_events demo_env [OUT_EVENTS_JSON \<mapsto> Text ''{not json''] OUT_EVENTS_JSON = Inr []
   \<and> load_existing_events demo_env [OUT_EVENTS_JSON \<mapsto> Text ''{"days":[]}''] OUT_EVENTS_JSON = Inr []
   \<and> load_existing_events (stub_env\<lparr>json_loads := (\<lambda>s. Inr (JList [JInt 1, JDict [(''event_id'', JInt 5)]]))\<rparr>)
        [OUT_EVENTS_JSON \<mapsto> Text ''[1, {"event_id": 5}]''] OUT_EVENTS_JSON = Inr [[(''event_id'', JInt 5)]]
   \<and> load_existing_events demo_env [OUT_EVENTS_JSON \<mapsto> NotUtf8 []] OUT_EVENTS_JSON = Inl UnicodeDecodeError
   \<and> load_existing_events demo_env [OUT_EVENTS_JSON \<mapsto> Directory] OUT_EVENTS_JSON = Inl OSError
   \<and> load_existing_events (stub_env\<lparr>json_loads := (\<lambda>s. Inl RecursionError)\<rparr>)
        [OUT_EVENTS_JSON \<mapsto> Text ''[[[[''] OUT_EVENTS_JSON = Inl RecursionError
   \<and> main demo_env [IN_HTML \<mapsto> Text (MARKER @ '' {days:[],};''), OUT_EVENTS_JSON \<mapsto> NotUtf8 []]
       = ([IN_HTML \<mapsto> Text (MARKER @ '' {days:[],};''), OUT_EVENTS_JSON \<mapsto> NotUtf8 []],
          Some UnicodeDecodeError)\<close>
proof -
  let ?E2 = "stub_env\<lparr>json_loads := (\<lambda>s. Inr (JList [JInt 1, JDict [(''event_id'', JInt 5)]]))\<rparr>"
  let ?E3 = "stub_env\<lparr>json_loads := (\<lambda>s. Inl RecursionError)\<rparr>"
  let ?fs = "[IN_HTML \<mapsto> Text (MARKER @ '' {days:[],};''), OUT_EVENTS_JSON \<mapsto> NotUtf8 []]"
  have a: "load_existing_events demo_env Map.empty OUT_EVENTS_JSON = Inr []"
    using load_existing_events_cases [where fs = Map.empty and path = OUT_EVENTS_JSON and E = demo_env and t = "[]"
        and payload = JNull and xs = "[]" and e = OSError and f = Directory
        and html = "[]" and js_obj = "[]" and data = JNull and new_rows = "[]"]
    by simp
  have b: "load_existing_events demo_env [OUT_EVENTS_JSON \<mapsto> Text ''{not json''] OUT_EVENTS_JSON = Inr []"
    using load_existing_events_cases [where fs = "[OUT_EVENTS_JSON \<mapsto> Text ''{not json'']" and path = OUT_EVENTS_JSON
        and E = demo_env and t = "''{not json''" and payload = JNull and xs = "[]"
        and e = OSError and f = Directory and html = "[]" and js_obj = "[]"
        and data = JNull and new_rows = "[]"]
    by (simp add: demo_env_def)
  have c: \<open>load_existing_events demo_env [OUT_EVENTS_JSON \<mapsto> Text ''{"days":[]}''] OUT_EVENTS_JSON = Inr []\<close>
    using load_existing_events_cases [where fs = \<open>[OUT_EVENTS_JSON \<mapsto> Text ''{"days":[]}'']\<close>
        and path = OUT_EVENTS_JSON and E = demo_env
        and t = \<open>''{"days":[]}''\<close>
        and payload = "JDict [(''days'', JList [])]" and xs = "[]" and e = OSError
        and f = Directory and html = "[]" and js_obj = "[]" and data = JNull
        and new_rows = "[]"]
    by (simp add: demo_env_def)
  have d: \<open>load_existing_events ?E2 [OUT_EVENTS_JSON \<mapsto> Text ''[1, {"event_id": 5}]''] OUT_EVENTS_JSON
           = Inr [[(''event_id'', JInt 5)]]\<close>
    using load_existing_events_cases [where fs = \<open>[OUT_EVENTS_JSON \<mapsto> Text ''[1, {"event_id": 5}]'']\<close>
        and path = OUT_EVENTS_JSON and E = "?E2"
        and t = \<open>''[1, {"event_id": 5}]''\<close> and payload = JNull
        and xs = "[JInt 1, JDict [(''event_id'', JInt 5)]]" and e = OSError
        and f = Directory and html = "[]" and js_obj = "[]" and data = JNull
        and new_rows = "[]"]
    by auto
  have e: "load_existing_events demo_env [OUT_EVENTS_JSON \<mapsto> NotUtf8 []] OUT_EVENTS_JSON = Inl UnicodeDecodeError"
    using load_existing_events_cases [where fs = "[OUT_EVENTS_JSON \<mapsto> NotUtf8 []]" and path = OUT_EVENTS_JSON
        and E = demo_env and t = "[]" and payload = JNull and xs = "[]" and e = OSError
        and f = Directory and html = "[]" and js_obj = "[]" and data = JNull
        and new_rows = "[]"]
    by simp
  have f: "load_existing_events demo_env [OUT_EVENTS_JSON \<mapsto> Directory] OUT_EVENTS_JSON = Inl OSError"
    using load_existing_events_cases [where fs = "[OUT_EVENTS_JSON \<mapsto> Directory]" and path = OUT_EVENTS_JSON
        and E = demo_env and t = "[]" and payload = JNull and xs = "[]" and e = OSError
        and f = Directory and html = "[]" and js_obj = "[]" and data = JNull
        and new_rows = "[]"]
    by simp
  have g: "load_existing_events ?E3 [OUT_EVENTS_JSON \<mapsto> Text ''[[[[''] OUT_EVENTS_JSON = Inl RecursionError"
    using load_existing_events_cases [where fs = "[OUT_EVENTS_JSON \<mapsto> Text ''[[[['']" and path = OUT_EVENTS_JSON
        and E = "?E3" and t = "''[[[[''" and payload = JNull and xs = "[]"
        and e = RecursionError and f = Directory and html = "[]" and js_obj = "[]"
        and data = JNull and new_rows = "[]"]
    by simp
  have p: "IN_HTML \<noteq> OUT_EVENTS_JSON" by (simp add: IN_HTML_def OUT_EVENTS_JSON_def)
  have x: "extract_object_literal (MARKER @ '' {days:[],};'') MARKER = Inr ''{days:[],}''"
    by code_simp
  have n: \<open>js_object_to_json_text ''{days:[],}'' = ''{"days":[]}''\<close>
    by code_simp
  have l: "json_loads demo_env (js_object_to_json_text ''{days:[],}'') = Inr (JDict [(''days'', JList [])])"
    by (simp add: n demo_env_def)
  have fl: "flatten demo_env (JDict [(''days'', JList [])]) = Inr []"
    by code_simp
  have ld: "load_existing_events demo_env ?fs OUT_EVENTS_JSON = Inl UnicodeDecodeError"
    using load_existing_events_cases [where fs = "?fs" and path = OUT_EVENTS_JSON and E = demo_env and t = "[]"
        and payload = JNull and xs = "[]" and e = OSError and f = Directory
        and html = "[]" and js_obj = "[]" and data = JNull and new_rows = "[]"]
    by simp
  have h: "main demo_env ?fs = (?fs, Some UnicodeDecodeError)"
    using load_existing_events_cases [where fs = "?fs" and path = OUT_EVENTS_JSON and E = demo_env and t = "[]"
        and payload = JNull and xs = "[]" and e = UnicodeDecodeError
        and f = "Text (MARKER @ '' {days:[],};'')" and html = "MARKER @ '' {days:[],};''"
        and js_obj = "''{days:[],}''" and data = "JDict [(''days'', JList [])]"
        and new_rows = "[]"]
      p x l fl ld
    by simp
  from a b c d e f g h show ?thesis by simp
qed

text \<open>
  C10 as the specification states it fails: a persisted store whose bytes are not valid
  UTF-8 is no JSON, but \<open>load_existing_events\<close> does not return the empty list for it. It
  raises \<open>UnicodeDecodeError\<close>, under any decoder, and the run fails: \<open>main\<close> ends with that
  exception where, without the store, it ends well.
\<close>

theorem load_existing_events_not_utf8_counterexample:
  "(\<forall>E. load_existing_events E [OUT_EVENTS_JSON \<mapsto> NotUtf8 []] OUT_EVENTS_JSON = Inl UnicodeDecodeError)
   \<and> snd (main demo_env [IN_HTML \<mapsto> Text (MARKER @ '' {days:[],};''), OUT_EVENTS_JSON \<mapsto> NotUtf8 []])
       = Some UnicodeDecodeError
   \<and> snd (main demo_env [IN_HTML \<mapsto> Text (MARKER @ '' {days:[],};'')]) = None"
proof -
  have a: "\<forall>E. load_existing_events E [OUT_EVENTS_JSON \<mapsto> NotUtf8 []] OUT_EVENTS_JSON = Inl UnicodeDecodeError"
    by (simp add: load_existing_events_def)
  have b: "snd (main demo_env [IN_HTML \<mapsto> Text (MARKER @ '' {days:[],};''), OUT_EVENTS_JSON \<mapsto> NotUtf8 []])
       = Some UnicodeDecodeError"
    by code_simp
  have c: "snd (main demo_env [IN_HTML \<mapsto> Text (MARKER @ '' {days:[],};'')]) = None"
    by code_simp
  from a b c show ?thesis by blast
qed

section \<open>Properties of the locator and of a failed run\<close>






































section \<open>Properties of the normalizer\<close>

text \<open>
  C2 fails. The literal \<open>{a:Object.freeze({b:Object.freeze([1])})}\<close> holds a frozen object
  inside a frozen object. One pass of \<open>js_object_to_json_text\<close> drops the outer call and copies
  the inner one; a second pass over the result drops the inner call, so the second pass is no
  identity. \<open>strip_object_freeze\<close> is documented as replacing \<open>Object.freeze(<expr>)\<close> by
  \<open><expr>\<close> outside strings, and after one pass the text still holds such a call.
\<close>

theorem js_object_to_json_text_not_idempotent:
  \<open>js_object_to_json_text ''{a:Object.freeze({b:Object.freeze([1])})}'' = ''{"a":{"b":Object.freeze([1])}}''
   \<and> js_object_to_json_text ''{"a":{"b":Object.freeze([1])}}'' = ''{"a":{"b":[1]}}''
   \<and> strip_object_freeze ''{"a":Object.freeze({"b":Object.freeze([1])})}'' = ''{"a":{"b":Object.freeze([1])}}''\<close>
  by code_simp

text \<open>
  C1 fails. The value \<open>{"name": "it's"}\<close>, written as a literal with an unquoted key, a string
  in single quotes, a trailing comma and the call around it, is
  \<open>Object.freeze({name:'it\'s',})\<close>. The locator returns the literal; the normalizer turns its
  string into \<open>"it\'s"\<close>, keeping the backslash before the apostrophe. That is no JSON string
  (JSON has no escape \<open>\'\<close>, and \<open>json.loads\<close> raises on it), while \<open>single_quotes_to_double\<close> is
  documented as converting single-quoted literals to JSON double-quoted strings.
\<close>

theorem round_trip_apostrophe:
  \<open>extract_object_literal (MARKER @ '' Object.freeze({name:'' @ [sq] @ ''it'' @ [bs, sq] @ ''s'' @ [sq] @ '',});'') MARKER
     = Inr (''{name:'' @ [sq] @ ''it'' @ [bs, sq] @ ''s'' @ [sq] @ '',}'')
   \<and> js_object_to_json_text (''{name:'' @ [sq] @ ''it'' @ [bs, sq] @ ''s'' @ [sq] @ '',}'')
     = ''{"name":"it'' @ [bs, sq] @ ''s"}''
   \<and> single_quotes_to_double ([sq] @ ''it'' @ [bs, sq] @ ''s'' @ [sq]) = ''"it'' @ [bs, sq] @ ''s"''\<close>
  by code_simp

end
